theory Spec2Isabelle
  imports Main "HOL-Library.Word"
begin

section \<open>The DNS reverse proxy of dns\_reverse\_proxy.go\<close>

text \<open>
  The program is one Go file. Its handler \<open>route\<close> guards a query (question present,
  transfer authorised), applies at most one remap to the first question name, picks an
  upstream by suffix and hands over to \<open>proxy\<close>, which talks to the upstream and answers
  the client. The DNS library (parsing, \<open>Exchange\<close>, \<open>Transfer.In\<close>, \<open>Transfer.Out\<close>,
  \<open>HandleFailed\<close>, \<open>WriteMsg\<close>) is outside the program: what the upstream and the network
  answer is a parameter of the model, and every call the handler makes to the library is
  recorded, in order, as an event.
\<close>

subsection \<open>Messages\<close>

text \<open>\<open>dns.Question\<close>: name, type and class; the two numbers are \<open>uint16\<close>.\<close>

record Question =
  Name :: string
  Qtype :: "16 word"
  Qclass :: "16 word"

text \<open>
  A resource record, with the fields of its \<open>RR_Header\<close> and its data uninterpreted.
  \<open>ans.Header().Name\<close> is \<open>Hdr_Name\<close>.
\<close>

record RR =
  Hdr_Name :: string
  Rrtype :: "16 word"
  Class :: "16 word"
  Ttl :: "32 word"
  Rdata :: string

text \<open>\<open>dns.Msg\<close>: the header flags the claims speak of, and the four sections.\<close>

record Msg =
  MsgHdr_Id :: "16 word"
  Response :: bool
  Opcode :: int
  Truncated :: bool
  Rcode :: int
  Question :: "Question list"
  Answer :: "RR list"
  Ns :: "RR list"
  Extra :: "RR list"

definition TypeIXFR :: "16 word" where
  "TypeIXFR = 251"

definition TypeAXFR :: "16 word" where
  "TypeAXFR = 252"

text \<open>The errors the handler tells apart: \<open>dns.ErrTruncated\<close> and every other one.\<close>

datatype error = ErrTruncated | ErrOther string

text \<open>\<open>dns.Envelope\<close>, the unit of a zone transfer: records, or an error.\<close>

record Envelope =
  Env_RR :: "RR list"
  Env_Error :: "error option"

subsection \<open>The client connection\<close>

text \<open>
  \<open>w.RemoteAddr()\<close> is a \<open>*net.TCPAddr\<close> or a \<open>*net.UDPAddr\<close>: the textual IP address
  (with its zone, if any) and the port. Its \<open>String()\<close> joins host and port and
  \<open>net.SplitHostPort\<close> splits them again, so the \<open>remote\<close> of \<open>allowed\<close> is the host text.
\<close>

datatype net_addr = TCPAddr string nat | UDPAddr string nat

fun SplitHostPort_host :: "net_addr \<Rightarrow> string" where
  "SplitHostPort_host (TCPAddr h p) = h"
| "SplitHostPort_host (UDPAddr h p) = h"

record ResponseWriter =
  RemoteAddr :: net_addr

subsection \<open>Configuration\<close>

text \<open>
  The package variables set by \<open>main\<close>. \<open>routes\<close> and \<open>remaps\<close> are Go maps; a \<open>range\<close>
  over a map visits its entries in an order the language leaves open, so each table is
  given as the list of its entries in the order the loop visits them, and every theorem
  holds for whatever order that is.
\<close>

record config =
  defaultServer :: string
  routes :: "(string \<times> string) list"
  remaps :: "(string \<times> string) list"
  transferIPs :: "string list"

subsection \<open>The strings package\<close>

text \<open>\<open>strings.HasSuffix(s, suffix)\<close>: long enough, and the tail of that length is equal.\<close>

definition HasSuffix :: "string \<Rightarrow> string \<Rightarrow> bool" where
  "HasSuffix s suf \<longleftrightarrow>
     length s \<ge> length suf \<and> drop (length s - length suf) s = suf"

definition HasPrefix :: "string \<Rightarrow> string \<Rightarrow> bool" where
  "HasPrefix s pre \<longleftrightarrow> length s \<ge> length pre \<and> take (length pre) s = pre"

text \<open>\<open>strings.Index(s, substr)\<close>: the least position of \<open>substr\<close> in \<open>s\<close>; Go's -1 is \<open>None\<close>.\<close>

fun Index :: "string \<Rightarrow> string \<Rightarrow> nat option" where
  "Index [] sub = (if sub = [] then Some 0 else None)"
| "Index (c # cs) sub =
     (if HasPrefix (c # cs) sub then Some 0 else map_option Suc (Index cs sub))"

text \<open>
  \<open>strings.Replace(s, old, new, 1)\<close>, the only way the program calls it: \<open>s\<close> itself when
  \<open>old = new\<close> or \<open>old\<close> does not occur, else \<open>s\<close> with the leftmost \<open>old\<close> replaced.
  An empty \<open>old\<close> occurs at position 0.
\<close>

definition Replace1 :: "string \<Rightarrow> string \<Rightarrow> string \<Rightarrow> string" where
  "Replace1 s old new =
     (if old = new then s
      else case Index s old of
             None \<Rightarrow> s
           | Some j \<Rightarrow> take j s @ new @ drop (j + length old) s)"

subsection \<open>What the handler does, as events\<close>

text \<open>
  One event per call into the DNS library or the logger:
  \<open>HandleFailed req\<close> is \<open>dns.HandleFailed(w, req)\<close>, the failure response;
  \<open>XfrIn req addr\<close> is \<open>t.In(req, addr)\<close>; \<open>XfrOut req c\<close> is \<open>t.Out(w, req, c)\<close>;
  \<open>Exchange net req addr\<close> is \<open>c.Exchange(req, addr)\<close> on a client of that transport;
  \<open>WriteMsg resp\<close> is \<open>w.WriteMsg(resp)\<close>, where \<open>resp\<close> may be the nil pointer.
\<close>

datatype event =
    HandleFailed Msg
  | XfrIn Msg string
  | XfrOut Msg "Envelope list"
  | Exchange string Msg string
  | LogPrintf "error option"
  | WriteMsg "Msg option"

text \<open>
  How a call of the handler ends: it returns, a run-time panic leaves it, or it stays
  blocked in a library call for ever.
\<close>

datatype outcome = Returned | Panic | Blocked

text \<open>
  A call into the library that may not come back. \<open>t.Out\<close> ranges over the channel it is
  given: it returns when the channel is closed or a write fails, and on a channel that
  is never closed it does not return. What \<open>t.In\<close> makes of a request whose first
  question is not a transfer is the library's to decide; where it leaves the channel
  unfed and open, \<open>t.Out\<close> sends nothing and never returns.
\<close>

datatype 'a call = Returns 'a | Never_returns

text \<open>
  The world outside: what \<open>Exchange\<close> gives back for a transport, query and address
  (response pointer, possibly nil, and error), what \<open>t.In\<close> gives back (the envelopes its
  channel delivers, and error), and what becomes of \<open>t.Out\<close>: it returns, with an error
  or without, or it never returns.
\<close>

record world =
  upstream_exchange :: "string \<Rightarrow> Msg \<Rightarrow> string \<Rightarrow> Msg option \<times> error option"
  upstream_in :: "Msg \<Rightarrow> string \<Rightarrow> Envelope list \<times> error option"
  client_out :: "ResponseWriter \<Rightarrow> Msg \<Rightarrow> Envelope list \<Rightarrow> error option call"

subsection \<open>The transfer guard\<close>

text \<open>\<open>isTransfer\<close>: the loop over the questions, true at the first IXFR or AXFR.\<close>

fun isTransfer_questions :: "Question list \<Rightarrow> bool" where
  "isTransfer_questions [] = False"
| "isTransfer_questions (q # qs) =
     (if Qtype q = TypeIXFR \<or> Qtype q = TypeAXFR then True else isTransfer_questions qs)"

definition isTransfer :: "Msg \<Rightarrow> bool" where
  "isTransfer req = isTransfer_questions (Question req)"

text \<open>The loop of \<open>allowed\<close> over \<open>transferIPs\<close>.\<close>

fun ip_listed :: "string list \<Rightarrow> string \<Rightarrow> bool" where
  "ip_listed [] remote = False"
| "ip_listed (ip # ips) remote = (if ip = remote then True else ip_listed ips remote)"

definition allowed :: "config \<Rightarrow> ResponseWriter \<Rightarrow> Msg \<Rightarrow> bool" where
  "allowed cfg w req =
     (if \<not> isTransfer req then True
      else ip_listed (transferIPs cfg) (SplitHostPort_host (RemoteAddr w)))"

subsection \<open>proxy\<close>

definition transport_of :: "ResponseWriter \<Rightarrow> string" where
  "transport_of w = (case RemoteAddr w of TCPAddr h p \<Rightarrow> ''tcp'' | UDPAddr h p \<Rightarrow> ''udp'')"

text \<open>
  Lines 189 to 192: the first question name and every answer owner name get
  \<open>strings.Replace(_, dst, src, 1)\<close>. \<open>resp.Question[0]\<close> needs a response and a first
  question: on a nil \<open>resp\<close> or an empty question section the index expression panics,
  which is \<open>None\<close> here.
\<close>

definition rewrite_names :: "string \<Rightarrow> string \<Rightarrow> Msg option \<Rightarrow> Msg option" where
  "rewrite_names src dst resp =
     (case resp of
        None \<Rightarrow> None
      | Some r \<Rightarrow>
          (case Question r of
             [] \<Rightarrow> None
           | q # qs \<Rightarrow>
               Some (r\<lparr>Question := q\<lparr>Name := Replace1 (Name q) dst src\<rparr> # qs,
                       Answer := map (\<lambda>ans. ans\<lparr>Hdr_Name := Replace1 (Hdr_Name ans) dst src\<rparr>)
                                     (Answer r)\<rparr>)))"

definition proxy ::
  "world \<Rightarrow> string \<Rightarrow> ResponseWriter \<Rightarrow> Msg \<Rightarrow> string \<Rightarrow> string \<Rightarrow> event list \<times> outcome" where
  "proxy env addr w req src dst =
     (let transport = transport_of w in
      if isTransfer req then
        (if transport \<noteq> ''tcp'' then ([HandleFailed req], Returned)
         else
           (case upstream_in env req addr of
              (c, Some err) \<Rightarrow> ([XfrIn req addr, HandleFailed req], Returned)
            | (c, None) \<Rightarrow>
                (case client_out env w req c of
                   Never_returns \<Rightarrow> ([XfrIn req addr, XfrOut req c], Blocked)
                 | Returns (Some err) \<Rightarrow>
                     ([XfrIn req addr, XfrOut req c, HandleFailed req], Returned)
                 | Returns None \<Rightarrow> ([XfrIn req addr, XfrOut req c], Returned))))
      else
        (case upstream_exchange env transport req addr of
           (resp, err) \<Rightarrow>
             (if err \<noteq> None \<and> err \<noteq> Some ErrTruncated then
                ([Exchange transport req addr, LogPrintf err, HandleFailed req], Returned)
              else if src \<noteq> [] then
                (case rewrite_names src dst resp of
                   None \<Rightarrow> ([Exchange transport req addr], Panic)
                 | Some resp' \<Rightarrow>
                     ([Exchange transport req addr, WriteMsg (Some resp')], Returned))
              else ([Exchange transport req addr, WriteMsg resp], Returned))))"

subsection \<open>route\<close>

text \<open>
  The remap loop, lines 117 to 124: the first entry visited whose source is a suffix of
  the name gives \<open>matched_src\<close>, \<open>matched_dst\<close> and the new name, and ends the loop; with
  no such entry both strings stay empty and the name stays.
\<close>

fun remap_loop :: "(string \<times> string) list \<Rightarrow> string \<Rightarrow> string \<times> string \<times> string" where
  "remap_loop [] name = ('''', '''', name)"
| "remap_loop ((src, dst) # rest) name =
     (if HasSuffix name src then (src, dst, Replace1 name src dst)
      else remap_loop rest name)"

text \<open>The route loop, lines 126 to 131: the address of the first entry visited that matches.\<close>

fun route_loop :: "(string \<times> string) list \<Rightarrow> string \<Rightarrow> string option" where
  "route_loop [] qname = None"
| "route_loop ((name, addr) # rest) qname =
     (if HasSuffix qname name then Some addr else route_loop rest qname)"

definition route :: "config \<Rightarrow> world \<Rightarrow> ResponseWriter \<Rightarrow> Msg \<Rightarrow> event list \<times> outcome" where
  "route cfg env w req =
     (case Question req of
        [] \<Rightarrow> ([HandleFailed req], Returned)
      | q # qs \<Rightarrow>
          if \<not> allowed cfg w req then ([HandleFailed req], Returned)
          else
            (case remap_loop (remaps cfg) (Name q) of
               (matched_src, matched_dst, name') \<Rightarrow>
                 (let req' = req\<lparr>Question := q\<lparr>Name := name'\<rparr> # qs\<rparr> in
                  case route_loop (routes cfg) name' of
                    Some addr \<Rightarrow> proxy env addr w req' matched_src matched_dst
                  | None \<Rightarrow> proxy env (defaultServer cfg) w req' matched_src matched_dst)))"

subsection \<open>Reading a run\<close>

text \<open>The upstream addresses a run contacted, in order: transfers opened and exchanges made.\<close>

fun upstreams_contacted :: "event list \<Rightarrow> string list" where
  "upstreams_contacted [] = []"
| "upstreams_contacted (XfrIn req addr # es) = addr # upstreams_contacted es"
| "upstreams_contacted (Exchange net req addr # es) = addr # upstreams_contacted es"
| "upstreams_contacted (e # es) = upstreams_contacted es"

text \<open>What a run sent to the client: failure responses, written messages, transfer output.\<close>

fun client_deliveries :: "event list \<Rightarrow> event list" where
  "client_deliveries [] = []"
| "client_deliveries (HandleFailed req # es) = HandleFailed req # client_deliveries es"
| "client_deliveries (WriteMsg resp # es) = WriteMsg resp # client_deliveries es"
| "client_deliveries (XfrOut req c # es) = XfrOut req c # client_deliveries es"
| "client_deliveries (e # es) = client_deliveries es"

text \<open>
  The upstream \<open>route\<close> picks for a name: the first matching route, else the default.
\<close>

definition selected_upstream :: "config \<Rightarrow> string \<Rightarrow> string" where
  "selected_upstream cfg qname =
     (case route_loop (routes cfg) qname of Some addr \<Rightarrow> addr | None \<Rightarrow> defaultServer cfg)"

text \<open>The request as \<open>route\<close> leaves it after the remap loop: the first question renamed.\<close>

definition with_name :: "Msg \<Rightarrow> string \<Rightarrow> Msg" where
  "with_name req n =
     (case Question req of [] \<Rightarrow> req | q # qs \<Rightarrow> req\<lparr>Question := q\<lparr>Name := n\<rparr> # qs\<rparr>)"

subsection \<open>The words of the specification\<close>

text \<open>
  \<open>old\<close> occurs in \<open>s\<close> at position \<open>i\<close>; \<open>t\<close> is \<open>s\<close> with the occurrence at \<open>i\<close> replaced
  by \<open>new\<close>; \<open>t\<close> is \<open>s\<close> with exactly one occurrence of \<open>old\<close>, somewhere, replaced.
\<close>

definition occurs_at :: "string \<Rightarrow> string \<Rightarrow> nat \<Rightarrow> bool" where
  "occurs_at s old i \<longleftrightarrow> i + length old \<le> length s \<and> take (length old) (drop i s) = old"


definition occurs :: "string \<Rightarrow> string \<Rightarrow> bool" where
  "occurs s old \<longleftrightarrow> list_ex (occurs_at s old) [0..<Suc (length s)]"


text \<open>The suffix occurrence of \<open>old\<close> replaced: what is before the suffix stays.\<close>

definition suffix_replaced :: "string \<Rightarrow> string \<Rightarrow> string \<Rightarrow> string" where
  "suffix_replaced s old new = take (length s - length old) s @ new"


text \<open>\<open>old\<close> occurs in \<open>s\<close> at one position and no other.\<close>

definition occurs_once :: "string \<Rightarrow> string \<Rightarrow> bool" where
  "occurs_once s old \<longleftrightarrow> length (filter (occurs_at s old) [0..<Suc (length s)]) = 1"

text \<open>
  The remap undone on a name. The remap of \<open>src\<close> to \<open>dst\<close> turned the name \<open>asked\<close> into
  the name \<open>sent\<close>; a name \<open>n\<close> of the upstream's response reaches the client as \<open>n'\<close>.
  A name in which \<open>dst\<close> does not occur stays as it is. A name that ends with \<open>dst\<close> and
  has it nowhere else has this suffix replaced by \<open>src\<close>. And the name sent, when \<open>dst\<close>
  occurs in it once, comes back as the name asked. Of a name in which \<open>dst\<close> occurs
  elsewhere nothing is said.
\<close>

definition name_undone ::
  "string \<Rightarrow> string \<Rightarrow> string \<Rightarrow> string \<Rightarrow> string \<Rightarrow> string \<Rightarrow> bool" where
  "name_undone asked sent src dst n n' \<longleftrightarrow>
     (\<not> occurs n dst \<longrightarrow> n' = n) \<and>
     (HasSuffix n dst \<and> occurs_once n dst \<longrightarrow> n' = suffix_replaced n dst src) \<and>
     (n = sent \<and> occurs_once sent dst \<longrightarrow> n' = asked)"

text \<open>
  Two messages that differ in nothing but the first question name and the owner names of
  the answers.
\<close>

definition same_but_names :: "Msg \<Rightarrow> Msg \<Rightarrow> bool" where
  "same_but_names r r' \<longleftrightarrow>
     r' = r\<lparr>Question := Question r', Answer := Answer r'\<rparr> \<and>
     length (Question r') = length (Question r) \<and>
     tl (Question r') = tl (Question r) \<and>
     map (\<lambda>q. q\<lparr>Name := []\<rparr>) (Question r') = map (\<lambda>q. q\<lparr>Name := []\<rparr>) (Question r) \<and>
     map (\<lambda>a. a\<lparr>Hdr_Name := []\<rparr>) (Answer r') = map (\<lambda>a. a\<lparr>Hdr_Name := []\<rparr>) (Answer r)"

text \<open>
  Lines 81 to 84 of \<open>main\<close> append the root dot to a remap key that lacks it, so every key of
  \<open>remaps\<close> ends with a dot.
\<close>

definition keys_normalized :: "(string \<times> string) list \<Rightarrow> bool" where
  "keys_normalized tbl \<longleftrightarrow> list_all (\<lambda>(k, v). HasSuffix k ''.'') tbl"

subsection \<open>Example data\<close>

text \<open>A query with one question of class IN, and an address record.\<close>

definition query :: "string \<Rightarrow> 16 word \<Rightarrow> Msg" where
  "query n t =
     \<lparr>MsgHdr_Id = 7, Response = False, Opcode = 0, Truncated = False, Rcode = 0,
      Question = [\<lparr>Name = n, Qtype = t, Qclass = 1\<rparr>], Answer = [], Ns = [], Extra = []\<rparr>"

definition no_question :: Msg where
  "no_question =
     \<lparr>MsgHdr_Id = 7, Response = False, Opcode = 0, Truncated = False, Rcode = 0,
      Question = [], Answer = [], Ns = [], Extra = []\<rparr>"

definition TypeA :: "16 word" where
  "TypeA = 1"


definition rr :: "string \<Rightarrow> 16 word \<Rightarrow> string \<Rightarrow> RR" where
  "rr n t d = \<lparr>Hdr_Name = n, Rrtype = t, Class = 1, Ttl = 300, Rdata = d\<rparr>"

text \<open>An upstream response: truncation flag, question names, answers.\<close>

definition response :: "bool \<Rightarrow> string list \<Rightarrow> RR list \<Rightarrow> Msg" where
  "response tc ns ans =
     \<lparr>MsgHdr_Id = 7, Response = True, Opcode = 0, Truncated = tc, Rcode = 0,
      Question = map (\<lambda>n. \<lparr>Name = n, Qtype = TypeA, Qclass = 1\<rparr>) ns,
      Answer = ans, Ns = [], Extra = []\<rparr>"

text \<open>
  A world whose every exchange gives the same result, and whose transfers deliver the
  given envelopes without error.
\<close>

definition answering :: "Msg option \<Rightarrow> error option \<Rightarrow> Envelope list \<Rightarrow> world" where
  "answering resp err envs =
     \<lparr>upstream_exchange = (\<lambda>net req addr. (resp, err)),
      upstream_in = (\<lambda>req addr. (envs, None)),
      client_out = (\<lambda>w req c. Returns None)\<rparr>"

text \<open>
  A world whose transfer channel is never fed and never closed, so that \<open>t.Out\<close> sends
  nothing and does not return.
\<close>

definition stalled :: world where
  "stalled =
     \<lparr>upstream_exchange = (\<lambda>net req addr. (None, Some (ErrOther ''timeout''))),
      upstream_in = (\<lambda>req addr. ([], None)),
      client_out = (\<lambda>w req c. Never_returns)\<rparr>"

text \<open>A query with two questions of class IN.\<close>

definition query2 :: "string \<Rightarrow> 16 word \<Rightarrow> string \<Rightarrow> 16 word \<Rightarrow> Msg" where
  "query2 n1 t1 n2 t2 =
     \<lparr>MsgHdr_Id = 7, Response = False, Opcode = 0, Truncated = False, Rcode = 0,
      Question = [\<lparr>Name = n1, Qtype = t1, Qclass = 1\<rparr>, \<lparr>Name = n2, Qtype = t2, Qclass = 1\<rparr>],
      Answer = [], Ns = [], Extra = []\<rparr>"

definition tcp_client :: "string \<Rightarrow> ResponseWriter" where
  "tcp_client ip = \<lparr>RemoteAddr = TCPAddr ip 40000\<rparr>"

definition udp_client :: "string \<Rightarrow> ResponseWriter" where
  "udp_client ip = \<lparr>RemoteAddr = UDPAddr ip 40000\<rparr>"

text \<open>Scenario 1 and 3 of the specification, and two overlapping routes.\<close>

definition example_cfg :: config where
  "example_cfg =
     \<lparr>defaultServer = ''8.8.8.8:53'',
      routes = [(''example.com.'', ''8.8.4.4:53'')],
      remaps = [],
      transferIPs = [''1.2.3.4'']\<rparr>"

definition overlap_cfg :: config where
  "overlap_cfg =
     \<lparr>defaultServer = ''8.8.8.8:53'',
      routes = [(''a.b.com.'', ''10.0.0.2:53''), (''b.com.'', ''10.0.0.1:53'')],
      remaps = [],
      transferIPs = [''1.2.3.4'']\<rparr>"

text \<open>Scenario 2 of the specification.\<close>

definition remap_cfg :: config where
  "remap_cfg =
     \<lparr>defaultServer = ''8.8.8.8:53'',
      routes = [(''new.com.'', ''9.9.9.9:53'')],
      remaps = [(''old.com.'', ''new.com.'')],
      transferIPs = [''1.2.3.4'']\<rparr>"

definition zone_envelopes :: "Envelope list" where
  "zone_envelopes =
     [\<lparr>Env_RR = [rr ''new.com.'' 6 ''soa'', rr ''a.new.com.'' 1 ''192.0.2.1'',
                 rr ''new.com.'' 6 ''soa''],
       Env_Error = None\<rparr>]"

section \<open>Lemmas\<close>

subsection \<open>Suffixes\<close>

lemma HasSuffix_iff: "HasSuffix s suf \<longleftrightarrow> (\<exists>p. s = p @ suf)"
proof
  assume "HasSuffix s suf"
  then have "s = take (length s - length suf) s @ suf"
    by (metis HasSuffix_def append_take_drop_id)
  then show "\<exists>p. s = p @ suf" ..
next
  assume "\<exists>p. s = p @ suf"
  then show "HasSuffix s suf"
    by (auto simp: HasSuffix_def)
qed

subsection \<open>The guard and the two loops\<close>

lemma isTransfer_iff:
  "isTransfer req \<longleftrightarrow> (\<exists>q \<in> set (Question req). Qtype q = TypeIXFR \<or> Qtype q = TypeAXFR)"
proof -
  have "isTransfer_questions qs \<longleftrightarrow> (\<exists>q \<in> set qs. Qtype q = TypeIXFR \<or> Qtype q = TypeAXFR)"
    for qs
    by (induction qs) auto
  then show ?thesis by (simp add: isTransfer_def)
qed

lemma isTransfer_questions_rename:
  "isTransfer_questions (q\<lparr>Name := n\<rparr> # qs) = isTransfer_questions (q # qs)"
  by simp

lemma isTransfer_rename:
  "Question req = q # qs \<Longrightarrow> isTransfer (req\<lparr>Question := q\<lparr>Name := n\<rparr> # qs\<rparr>) = isTransfer req"
  by (simp add: isTransfer_def)

lemma ip_listed_iff: "ip_listed ips remote \<longleftrightarrow> remote \<in> set ips"
  by (induction ips) auto

lemma route_loop_None_iff:
  "route_loop tbl n = None \<longleftrightarrow> (\<forall>(S, U) \<in> set tbl. \<not> HasSuffix n S)"
  by (induction tbl n rule: route_loop.induct) auto

lemma route_loop_Some:
  "route_loop tbl n = Some U \<Longrightarrow> \<exists>S. (S, U) \<in> set tbl \<and> HasSuffix n S"
  by (induction tbl n rule: route_loop.induct) (auto split: if_splits)

lemma remap_loop_cases:
  "remap_loop tbl n = (src, dst, n') \<Longrightarrow>
     (src = [] \<and> dst = [] \<and> n' = n \<and> (\<forall>(s, d) \<in> set tbl. \<not> HasSuffix n s)) \<or>
     ((src, dst) \<in> set tbl \<and> HasSuffix n src \<and> n' = Replace1 n src dst)"
  by (induction tbl n rule: remap_loop.induct) (auto split: if_splits)

lemma route_unfold:
  assumes "Question req = q # qs" "allowed cfg w req"
    "remap_loop (remaps cfg) (Name q) = (src, dst, name')"
  shows "route cfg env w req =
     proxy env (selected_upstream cfg name') w (req\<lparr>Question := q\<lparr>Name := name'\<rparr> # qs\<rparr>) src dst"
  using assms by (simp add: route_def selected_upstream_def split: option.splits)

lemma Index_Some:
  "Index s old = Some j \<Longrightarrow> occurs_at s old j \<and> (\<forall>i<j. \<not> occurs_at s old i)"
proof (induction s old arbitrary: j rule: Index.induct)
  case (1 sub)
  then show ?case by (auto simp: occurs_at_def split: if_splits)
next
  case (2 c cs sub)
  show ?case
  proof (cases "HasPrefix (c # cs) sub")
    case True
    with 2 show ?thesis by (auto simp: occurs_at_def HasPrefix_def)
  next
    case False
    with 2 obtain k where k: "Index cs sub = Some k" "j = Suc k" by auto
    with 2 False have ih: "occurs_at cs sub k" "\<forall>i<k. \<not> occurs_at cs sub i" by auto
    have "occurs_at (c # cs) sub (Suc k)" using ih(1) by (simp add: occurs_at_def)
    moreover have "\<not> occurs_at (c # cs) sub i" if "i < Suc k" for i
    proof (cases i)
      case 0
      with False show ?thesis by (auto simp: occurs_at_def HasPrefix_def)
    next
      case (Suc i')
      with that ih(2) show ?thesis by (simp add: occurs_at_def)
    qed
    ultimately show ?thesis using k by blast
  qed
qed

lemma Index_None: "Index s old = None \<Longrightarrow> \<not> occurs_at s old i"
proof (induction s old arbitrary: i rule: Index.induct)
  case (1 sub)
  then show ?case by (auto simp: occurs_at_def split: if_splits)
next
  case (2 c cs sub)
  then have np: "\<not> HasPrefix (c # cs) sub" and "Index cs sub = None"
    by (auto split: if_splits)
  with 2 have ih: "\<And>k. \<not> occurs_at cs sub k" by auto
  show ?case
  proof (cases i)
    case 0
    with np show ?thesis by (auto simp: occurs_at_def HasPrefix_def)
  next
    case (Suc k)
    with ih[of k] show ?thesis by (simp add: occurs_at_def)
  qed
qed

lemma occurs_at_bound: "occurs_at s old i \<Longrightarrow> i < Suc (length s)"
  by (simp add: occurs_at_def)

lemma occurs_iff: "occurs s old \<longleftrightarrow> (\<exists>i. occurs_at s old i)"
proof
  assume "occurs s old"
  then show "\<exists>i. occurs_at s old i"
    unfolding occurs_def list_ex_iff by blast
next
  assume "\<exists>i. occurs_at s old i"
  then obtain i where i: "occurs_at s old i" ..
  then have "i \<in> set [0..<Suc (length s)]"
    using occurs_at_bound[OF i] by (simp del: upt_Suc)
  with i show "occurs s old"
    unfolding occurs_def list_ex_iff by blast
qed

lemma occurs_Index: "occurs s old \<longleftrightarrow> Index s old \<noteq> None"
  using Index_None Index_Some occurs_iff by (metis not_Some_eq)

lemma HasSuffix_occurs_at: "HasSuffix s suf \<Longrightarrow> occurs_at s suf (length s - length suf)"
  by (auto simp: HasSuffix_def occurs_at_def)




subsection \<open>Unfolding the model\<close>

lemmas model_defs =
  route_def proxy_def allowed_def isTransfer_def transport_of_def rewrite_names_def
  HasSuffix_def HasPrefix_def Replace1_def TypeAXFR_def TypeIXFR_def Let_def

lemma isTransfer_has_question: "isTransfer req \<Longrightarrow> \<exists>q qs. Question req = q # qs"
  by (cases "Question req") (auto simp: isTransfer_def)

lemma upstreams_contacted_proxy:
  "isTransfer req \<longrightarrow> transport_of w = ''tcp'' \<Longrightarrow>
   upstreams_contacted (fst (proxy env addr w req src dst)) = [addr]"
  by (auto simp: proxy_def Let_def split: prod.splits option.splits call.splits)

lemma with_name_Cons:
  "Question req = q # qs \<Longrightarrow> with_name req n = req\<lparr>Question := q\<lparr>Name := n\<rparr> # qs\<rparr>"
  by (simp add: with_name_def)

lemma proxy_transfer_tcp:
  assumes "isTransfer req" and "transport_of w = ''tcp''" and "upstream_in env req addr = (c, err)"
  shows "proxy env addr w req src dst =
     (if err \<noteq> None then ([XfrIn req addr, HandleFailed req], Returned)
      else
        (case client_out env w req c of
           Never_returns \<Rightarrow> ([XfrIn req addr, XfrOut req c], Blocked)
         | Returns (Some e) \<Rightarrow> ([XfrIn req addr, XfrOut req c, HandleFailed req], Returned)
         | Returns None \<Rightarrow> ([XfrIn req addr, XfrOut req c], Returned)))"
  using assms by (auto simp: proxy_def split: option.splits call.splits)

lemma proxy_transfer_ignores_remap:
  "isTransfer req \<Longrightarrow> proxy env addr w req src dst = proxy env addr w req [] []"
  by (simp add: proxy_def)

lemma route_upstreams_contacted:
  assumes "Question req = q # qs" and "allowed cfg w req"
    and "isTransfer req \<longrightarrow> transport_of w = ''tcp''"
    and "remap_loop (remaps cfg) (Name q) = (src, dst, name')"
  shows "upstreams_contacted (fst (route cfg env w req)) = [selected_upstream cfg name']"
proof -
  let ?req' = "req\<lparr>Question := q\<lparr>Name := name'\<rparr> # qs\<rparr>"
  have "isTransfer ?req' \<longrightarrow> transport_of w = ''tcp''"
    using assms(1,3) by (simp add: isTransfer_rename)
  then show ?thesis
    using route_unfold [OF assms(1,2,4)] upstreams_contacted_proxy by simp
qed

lemma remap_applied_iff:
  assumes "keys_normalized tbl"
  shows "fst (remap_loop tbl n) \<noteq> [] \<longleftrightarrow> (\<exists>(s, d) \<in> set tbl. HasSuffix n s)"
  using assms
proof (induction tbl n rule: remap_loop.induct)
  case (1 name)
  then show ?case by simp
next
  case (2 src dst rest name)
  then have "HasSuffix src ''.''" and "keys_normalized rest"
    by (simp_all add: keys_normalized_def)
  then have "src \<noteq> []" by (auto simp: HasSuffix_def)
  with 2 \<open>keys_normalized rest\<close> show ?case by auto
qed

lemma allowed_ordinary: "\<not> isTransfer req \<Longrightarrow> allowed cfg w req"
  by (simp add: allowed_def)

lemma proxy_ordinary:
  assumes "\<not> isTransfer req"
    and "upstream_exchange env (transport_of w) req addr = (resp, err)"
    and "err = None \<or> err = Some ErrTruncated"
  shows "proxy env addr w req src dst =
     (if src \<noteq> [] then
        (case rewrite_names src dst resp of
           None \<Rightarrow> ([Exchange (transport_of w) req addr], Panic)
         | Some resp' \<Rightarrow> ([Exchange (transport_of w) req addr, WriteMsg (Some resp')], Returned))
      else ([Exchange (transport_of w) req addr, WriteMsg resp], Returned))"
  using assms by (auto simp: proxy_def Let_def)

lemma same_but_names_refl: "same_but_names r r"
  by (simp add: same_but_names_def)

lemma occurs_once_unique:
  assumes "occurs_once s old" and "occurs_at s old i" and "occurs_at s old j"
  shows "i = j"
proof -
  define xs where "xs = filter (occurs_at s old) [0..<Suc (length s)]"
  from assms(1) have "length xs = Suc 0" by (simp only: occurs_once_def xs_def One_nat_def)
  then obtain x where x: "xs = [x]"
    by (auto simp: length_Suc_conv)
  have "i \<in> set xs"
    unfolding xs_def using assms(2) occurs_at_bound [OF assms(2)] by (simp del: upt_Suc)
  moreover have "j \<in> set xs"
    unfolding xs_def using assms(3) occurs_at_bound [OF assms(3)] by (simp del: upt_Suc)
  ultimately show ?thesis by (simp add: x)
qed

lemma Replace1_absent: "\<not> occurs s old \<Longrightarrow> Replace1 s old new = s"
  by (simp add: occurs_Index Replace1_def)

lemma occurs_at_split:
  "occurs_at s old j \<Longrightarrow> s = take j s @ old @ drop (j + length old) s"
  by (metis occurs_at_def append_take_drop_id drop_drop add.commute)

lemma Replace1_at:
  assumes "occurs_once s old" and "occurs_at s old j"
  shows "Replace1 s old new = take j s @ new @ drop (j + length old) s"
proof (cases "old = new")
  case True
  then show ?thesis using occurs_at_split [OF assms(2)] by (simp add: Replace1_def)
next
  case False
  from assms(2) have "Index s old \<noteq> None" using Index_None by blast
  then obtain k where k: "Index s old = Some k" by auto
  then have "occurs_at s old k" using Index_Some by blast
  then have "k = j" using occurs_once_unique [OF assms(1)] assms(2) by blast
  with k False show ?thesis by (simp add: Replace1_def)
qed

lemma Replace1_suffix:
  assumes "HasSuffix s old" and "occurs_once s old"
  shows "Replace1 s old new = suffix_replaced s old new"
proof -
  have "length old \<le> length s" using assms(1) by (simp add: HasSuffix_def)
  then show ?thesis
    using Replace1_at [OF assms(2) HasSuffix_occurs_at [OF assms(1)]]
    by (simp add: suffix_replaced_def)
qed

lemma Replace1_back:
  assumes "HasSuffix s src" and "occurs_once (Replace1 s src dst) dst"
  shows "Replace1 (Replace1 s src dst) dst src = s"
proof (cases "src = dst")
  case True
  then show ?thesis by (simp add: Replace1_def)
next
  case False
  have "Index s src \<noteq> None"
    using HasSuffix_occurs_at [OF assms(1)] Index_None by blast
  then obtain j where j: "Index s src = Some j" by auto
  then have occ: "occurs_at s src j" using Index_Some by blast
  let ?t = "take j s @ dst @ drop (j + length src) s"
  have t: "Replace1 s src dst = ?t" using j False by (simp add: Replace1_def)
  have jl: "j \<le> length s" using occ by (simp add: occurs_at_def)
  have occ': "occurs_at ?t dst j" using jl by (simp add: occurs_at_def)
  have "Replace1 ?t dst src = take j ?t @ src @ drop (j + length dst) ?t"
    using Replace1_at [OF _ occ'] assms(2) t by simp
  also have "\<dots> = take j s @ src @ drop (j + length src) s"
    using jl by simp
  also have "\<dots> = s" using occurs_at_split [OF occ] by simp
  finally show ?thesis by (simp add: t)
qed

lemma Replace1_name_undone:
  assumes "HasSuffix asked src" and "sent = Replace1 asked src dst"
  shows "name_undone asked sent src dst n (Replace1 n dst src)"
  unfolding name_undone_def
proof (intro conjI impI)
  assume "\<not> occurs n dst"
  then show "Replace1 n dst src = n" by (rule Replace1_absent)
next
  assume "HasSuffix n dst \<and> occurs_once n dst"
  then show "Replace1 n dst src = suffix_replaced n dst src"
    by (simp add: Replace1_suffix)
next
  assume "n = sent \<and> occurs_once sent dst"
  then show "Replace1 n dst src = asked"
    using Replace1_back [OF assms(1)] assms(2) by simp
qed

lemma rewrite_names_undone:
  assumes "Question resp = rq # rqs" and "HasSuffix asked src" and "sent = Replace1 asked src dst"
  shows "\<exists>resp'. rewrite_names src dst (Some resp) = Some resp' \<and>
     same_but_names resp resp' \<and>
     name_undone asked sent src dst (Name rq) (Name (hd (Question resp'))) \<and>
     list_all2 (\<lambda>a a'. name_undone asked sent src dst (Hdr_Name a) (Hdr_Name a'))
       (Answer resp) (Answer resp')"
proof -
  let ?resp' = "resp\<lparr>Question := rq\<lparr>Name := Replace1 (Name rq) dst src\<rparr> # rqs,
      Answer := map (\<lambda>ans. ans\<lparr>Hdr_Name := Replace1 (Hdr_Name ans) dst src\<rparr>) (Answer resp)\<rparr>"
  have r: "rewrite_names src dst (Some resp) = Some ?resp'"
    using assms(1) by (simp add: rewrite_names_def)
  have s: "same_but_names resp ?resp'"
    using assms(1) by (simp add: same_but_names_def o_def)
  have q: "name_undone asked sent src dst (Name rq) (Name (hd (Question ?resp')))"
    using Replace1_name_undone [OF assms(2,3)] by simp
  have a: "list_all2 (\<lambda>a a'. name_undone asked sent src dst (Hdr_Name a) (Hdr_Name a'))
       (Answer resp) (Answer ?resp')"
    using Replace1_name_undone [OF assms(2,3)] by (simp add: list_all2_map2 list_all2_same)
  from r s q a show ?thesis by blast
qed

text \<open>
  Lines 189 to 192 look for \<open>dst\<close> anywhere in a name and take its leftmost occurrence,
  as line 121 does for \<open>src\<close>. When \<open>dst\<close> also occurs before the suffix the name does not
  come back as it was asked: \<open>new.com.old.com.\<close> is sent as \<open>new.com.new.com.\<close> and
  answered as \<open>old.com.new.com.\<close>.
\<close>

lemma undo_takes_leftmost_occurrence:
  "route remap_cfg
     (answering (Some (response False [''new.com.new.com.''] [])) None [])
     (udp_client ''5.6.7.8'') (query ''new.com.old.com.'' TypeA) =
   ([Exchange ''udp'' (query ''new.com.new.com.'' TypeA) ''9.9.9.9:53'',
     WriteMsg (Some (response False [''old.com.new.com.''] []))], Returned)"
  by (simp add: model_defs query_def response_def answering_def udp_client_def remap_cfg_def
      TypeA_def)

section \<open>The claims\<close>

text \<open>
  C8. A query with an empty question section gets the failure response for the query as
  it came in, and nothing else happens: no remap, no route, no call to an upstream.
\<close>

theorem route_no_question:
  "Question req = [] \<Longrightarrow> route cfg env w req = ([HandleFailed req], Returned)"
  by (simp add: route_def)

theorem route_no_question_witness:
  "Question no_question = [] \<and>
   route example_cfg (answering None None []) (udp_client ''5.6.7.8'') no_question =
     ([HandleFailed no_question], Returned)"
proof -
  have h: "Question no_question = []" by (simp add: no_question_def)
  show ?thesis using h route_no_question [OF h] by simp
qed

text \<open>
  C6. A zone-transfer query (some question of type AXFR or IXFR) from a client whose
  address is not among \<open>transferIPs\<close> gets the failure response and no upstream is
  contacted; a query that is not a transfer is always allowed.
\<close>

theorem transfer_guard:
  "(isTransfer req \<and> SplitHostPort_host (RemoteAddr w) \<notin> set (transferIPs cfg) \<longrightarrow>
      route cfg env w req = ([HandleFailed req], Returned) \<and>
      upstreams_contacted (fst (route cfg env w req)) = []) \<and>
   (\<not> isTransfer req \<longrightarrow> allowed cfg w req)"
proof (intro conjI impI)
  assume "\<not> isTransfer req"
  then show "allowed cfg w req" by (simp add: allowed_def)
next
  assume a: "isTransfer req \<and> SplitHostPort_host (RemoteAddr w) \<notin> set (transferIPs cfg)"
  then have na: "\<not> allowed cfg w req" by (simp add: allowed_def ip_listed_iff)
  then show r: "route cfg env w req = ([HandleFailed req], Returned)"
    by (simp add: route_def split: list.splits)
  show "upstreams_contacted (fst (route cfg env w req)) = []"
    by (simp add: r)
qed

theorem transfer_guard_witness:
  "isTransfer (query ''example.com.'' TypeAXFR) \<and>
   SplitHostPort_host (RemoteAddr (tcp_client ''5.6.7.8'')) \<notin> set (transferIPs example_cfg) \<and>
   route example_cfg (answering None None zone_envelopes) (tcp_client ''5.6.7.8'')
     (query ''example.com.'' TypeAXFR) =
     ([HandleFailed (query ''example.com.'' TypeAXFR)], Returned) \<and>
   \<not> isTransfer (query ''example.com.'' TypeA) \<and>
   allowed example_cfg (udp_client ''5.6.7.8'') (query ''example.com.'' TypeA)"
proof -
  have h1: "isTransfer (query ''example.com.'' TypeAXFR) \<and>
      SplitHostPort_host (RemoteAddr (tcp_client ''5.6.7.8'')) \<notin> set (transferIPs example_cfg)"
    by (simp add: isTransfer_def query_def TypeAXFR_def TypeIXFR_def tcp_client_def
        example_cfg_def)
  have h2: "\<not> isTransfer (query ''example.com.'' TypeA)"
    by (simp add: isTransfer_def query_def TypeAXFR_def TypeIXFR_def TypeA_def)
  show ?thesis
    using h1 h2
      transfer_guard [of "query ''example.com.'' TypeAXFR" "tcp_client ''5.6.7.8''" example_cfg
        "answering None None zone_envelopes"]
      transfer_guard [of "query ''example.com.'' TypeA" "udp_client ''5.6.7.8''" example_cfg
        "answering None None zone_envelopes"]
    by simp
qed

text \<open>
  C7. A zone-transfer query that does not arrive over TCP ends in one failure response,
  whether its client is allowed or not: nothing is sent to an upstream and no transfer
  is served.
\<close>

theorem transfer_over_udp_rejected:
  assumes "isTransfer req" and "transport_of w \<noteq> ''tcp''"
  shows "(\<exists>n. route cfg env w req = ([HandleFailed (with_name req n)], Returned)) \<and>
         upstreams_contacted (fst (route cfg env w req)) = []"
proof -
  from assms(1) obtain q qs where q: "Question req = q # qs"
    using isTransfer_has_question by blast
  show ?thesis
  proof (cases "allowed cfg w req")
    case False
    have "with_name req (Name q) = req"
      using q by (simp add: with_name_def)
    moreover from False q have "route cfg env w req = ([HandleFailed req], Returned)"
      by (simp add: route_def)
    ultimately have "route cfg env w req = ([HandleFailed (with_name req (Name q))], Returned)"
      by simp
    then show ?thesis by auto
  next
    case True
    obtain src dst name' where rm: "remap_loop (remaps cfg) (Name q) = (src, dst, name')"
      by (cases "remap_loop (remaps cfg) (Name q)") auto
    let ?req' = "req\<lparr>Question := q\<lparr>Name := name'\<rparr> # qs\<rparr>"
    have t: "isTransfer ?req'" using assms(1) q by (simp add: isTransfer_rename)
    have "route cfg env w req = proxy env (selected_upstream cfg name') w ?req' src dst"
      using route_unfold [OF q True rm] .
    also have "\<dots> = ([HandleFailed ?req'], Returned)"
      using t assms(2) by (simp add: proxy_def)
    also have "?req' = with_name req name'"
      using q by (simp add: with_name_def)
    finally show ?thesis by auto
  qed
qed

theorem transfer_over_udp_rejected_witness:
  "isTransfer (query ''old.com.'' TypeAXFR) \<and> transport_of (udp_client ''1.2.3.4'') \<noteq> ''tcp'' \<and>
   allowed remap_cfg (udp_client ''1.2.3.4'') (query ''old.com.'' TypeAXFR) \<and>
   route remap_cfg (answering None None zone_envelopes) (udp_client ''1.2.3.4'')
     (query ''old.com.'' TypeAXFR) = ([HandleFailed (query ''new.com.'' TypeAXFR)], Returned) \<and>
   upstreams_contacted (fst (route remap_cfg (answering None None zone_envelopes)
     (udp_client ''1.2.3.4'') (query ''old.com.'' TypeAXFR))) = []"
proof -
  have h1: "isTransfer (query ''old.com.'' TypeAXFR)"
    by (simp add: isTransfer_def query_def TypeAXFR_def TypeIXFR_def)
  have h2: "transport_of (udp_client ''1.2.3.4'') \<noteq> ''tcp''"
    by (simp add: transport_of_def udp_client_def)
  have a: "allowed remap_cfg (udp_client ''1.2.3.4'') (query ''old.com.'' TypeAXFR)"
    by (simp add: allowed_def isTransfer_def query_def TypeAXFR_def TypeIXFR_def
        udp_client_def remap_cfg_def)
  have r: "route remap_cfg (answering None None zone_envelopes) (udp_client ''1.2.3.4'')
     (query ''old.com.'' TypeAXFR) = ([HandleFailed (query ''new.com.'' TypeAXFR)], Returned)"
    by (simp add: model_defs query_def answering_def udp_client_def remap_cfg_def
        zone_envelopes_def rr_def)
  show ?thesis
    using h1 h2 a r
      transfer_over_udp_rejected [OF h1 h2, of remap_cfg "answering None None zone_envelopes"]
    by simp
qed

text \<open>
  C1, as the code has it. For a query with a question that passes the transfer guard
  (allowed, and over TCP if it is a transfer), if the name after the remap loop ends
  with a route suffix \<open>S\<close> mapped to \<open>U\<close>, then exactly one upstream is contacted and it
  is the upstream of a route whose suffix the name ends with, the first such route the
  loop visits; it is \<open>U\<close> whenever every route suffix the name ends with is mapped to
  \<open>U\<close>, as when \<open>S\<close> is the only one.
\<close>

theorem route_forwards_to_matching_route:
  assumes "Question req = q # qs" and "allowed cfg w req"
    and "isTransfer req \<longrightarrow> transport_of w = ''tcp''"
    and "remap_loop (remaps cfg) (Name q) = (src, dst, name')"
    and "(S, U) \<in> set (routes cfg)" and "HasSuffix name' S"
  shows "(\<exists>S' U'. (S', U') \<in> set (routes cfg) \<and> HasSuffix name' S' \<and>
            route_loop (routes cfg) name' = Some U' \<and>
            upstreams_contacted (fst (route cfg env w req)) = [U']) \<and>
         ((\<forall>(S', U') \<in> set (routes cfg). HasSuffix name' S' \<longrightarrow> U' = U) \<longrightarrow>
            upstreams_contacted (fst (route cfg env w req)) = [U])"
proof -
  have "route_loop (routes cfg) name' \<noteq> None"
    using assms(5,6) by (auto simp: route_loop_None_iff)
  then obtain U' where U': "route_loop (routes cfg) name' = Some U'" by auto
  then obtain S' where S': "(S', U') \<in> set (routes cfg)" "HasSuffix name' S'"
    using route_loop_Some by blast
  have c: "upstreams_contacted (fst (route cfg env w req)) = [U']"
    using route_upstreams_contacted [OF assms(1-4)] U' by (simp add: selected_upstream_def)
  have "U' = U" if "\<forall>(S', U') \<in> set (routes cfg). HasSuffix name' S' \<longrightarrow> U' = U"
    using that S' by auto
  with c S' U' show ?thesis by auto
qed

theorem route_forwards_to_matching_route_witness:
  "allowed example_cfg (udp_client ''5.6.7.8'') (query ''foo.example.com.'' TypeA) \<and>
   \<not> isTransfer (query ''foo.example.com.'' TypeA) \<and>
   remap_loop (remaps example_cfg) ''foo.example.com.'' = ('''', '''', ''foo.example.com.'') \<and>
   (''example.com.'', ''8.8.4.4:53'') \<in> set (routes example_cfg) \<and>
   HasSuffix ''foo.example.com.'' ''example.com.'' \<and>
   routes example_cfg = [(''example.com.'', ''8.8.4.4:53'')] \<and>
   upstreams_contacted (fst (route example_cfg (answering None (Some (ErrOther ''timeout'')) [])
     (udp_client ''5.6.7.8'') (query ''foo.example.com.'' TypeA))) = [''8.8.4.4:53'']"
proof -
  let ?req = "query ''foo.example.com.'' TypeA"
  let ?w = "udp_client ''5.6.7.8''"
  have h1: "Question ?req = \<lparr>Name = ''foo.example.com.'', Qtype = TypeA, Qclass = 1\<rparr> # []"
    by (simp add: query_def)
  have h2: "allowed example_cfg ?w ?req"
    by (simp add: model_defs query_def answering_def udp_client_def example_cfg_def TypeA_def)
  have h3: "isTransfer ?req \<longrightarrow> transport_of ?w = ''tcp''"
    by (simp add: model_defs query_def answering_def udp_client_def example_cfg_def TypeA_def)
  have h4: "remap_loop (remaps example_cfg) (Name \<lparr>Name = ''foo.example.com.'', Qtype = TypeA, Qclass = 1\<rparr>)
      = ('''', '''', ''foo.example.com.'')"
    by (simp add: example_cfg_def)
  have h5: "(''example.com.'', ''8.8.4.4:53'') \<in> set (routes example_cfg)"
    by (simp add: example_cfg_def)
  have h6: "HasSuffix ''foo.example.com.'' ''example.com.''" by (simp add: HasSuffix_def)
  have h7: "\<forall>(S', U') \<in> set (routes example_cfg). HasSuffix ''foo.example.com.'' S' \<longrightarrow> U' = ''8.8.4.4:53''"
    by (simp add: example_cfg_def)
  have nt: "\<not> isTransfer ?req"
    by (simp add: model_defs query_def answering_def udp_client_def example_cfg_def TypeA_def)
  have rs: "routes example_cfg = [(''example.com.'', ''8.8.4.4:53'')]"
    by (simp add: example_cfg_def)
  show ?thesis
    using h2 nt rs h4 h5 h6 h7
      route_forwards_to_matching_route [OF h1 h2 h3 h4 h5 h6,
        of "answering None (Some (ErrOther ''timeout'')) []"]
    by simp
qed

text \<open>
  C1 as it is written fails twice. With the two overlapping routes visited in the order
  \<open>a.b.com.\<close>, \<open>b.com.\<close>, the name \<open>x.a.b.com.\<close> ends with \<open>b.com.\<close>, yet the query
  goes to the upstream of \<open>a.b.com.\<close>. And a transfer query from a client that is not
  allowed goes to no upstream at all, whatever route its name matches.
\<close>

theorem route_forwards_to_matching_route_counterexample:
  "(Question (query ''x.a.b.com.'' TypeA) \<noteq> [] \<and>
    remap_loop (remaps overlap_cfg) ''x.a.b.com.'' = ('''', '''', ''x.a.b.com.'') \<and>
    (''b.com.'', ''10.0.0.1:53'') \<in> set (routes overlap_cfg) \<and>
    HasSuffix ''x.a.b.com.'' ''b.com.'' \<and>
    upstreams_contacted (fst (route overlap_cfg (answering None (Some (ErrOther ''timeout'')) [])
      (udp_client ''5.6.7.8'') (query ''x.a.b.com.'' TypeA))) = [''10.0.0.2:53''] \<and>
    ''10.0.0.2:53'' \<noteq> ''10.0.0.1:53'') \<and>
   (Question (query ''foo.example.com.'' TypeAXFR) \<noteq> [] \<and>
    remap_loop (remaps example_cfg) ''foo.example.com.'' = ('''', '''', ''foo.example.com.'') \<and>
    (''example.com.'', ''8.8.4.4:53'') \<in> set (routes example_cfg) \<and>
    HasSuffix ''foo.example.com.'' ''example.com.'' \<and>
    upstreams_contacted (fst (route example_cfg (answering None None zone_envelopes)
      (tcp_client ''5.6.7.8'') (query ''foo.example.com.'' TypeAXFR))) = [])"
  by (simp add: model_defs query_def answering_def tcp_client_def udp_client_def
      example_cfg_def overlap_cfg_def zone_envelopes_def TypeA_def rr_def)

text \<open>
  C9, as the code has it. For a query with a question that passes the transfer guard
  (allowed, and over TCP if it is a transfer), if the name after the remap loop ends
  with no route suffix, the run is that of \<open>proxy\<close> on the default upstream, and the
  default upstream is the one upstream contacted.
\<close>

theorem route_defaults_without_match:
  assumes "Question req = q # qs" and "allowed cfg w req"
    and "isTransfer req \<longrightarrow> transport_of w = ''tcp''"
    and "remap_loop (remaps cfg) (Name q) = (src, dst, name')"
    and "\<forall>(S, U) \<in> set (routes cfg). \<not> HasSuffix name' S"
  shows "route cfg env w req = proxy env (defaultServer cfg) w (with_name req name') src dst \<and>
         upstreams_contacted (fst (route cfg env w req)) = [defaultServer cfg]"
proof -
  have n: "route_loop (routes cfg) name' = None"
    using assms(5) by (simp add: route_loop_None_iff)
  then have s: "selected_upstream cfg name' = defaultServer cfg"
    by (simp add: selected_upstream_def)
  show ?thesis
    using route_unfold [OF assms(1,2,4)] route_upstreams_contacted [OF assms(1-4)]
    by (simp add: s with_name_Cons [OF assms(1)])
qed

theorem route_defaults_without_match_witness:
  "allowed example_cfg (udp_client ''5.6.7.8'') (query ''other.net.'' TypeA) \<and>
   \<not> isTransfer (query ''other.net.'' TypeA) \<and>
   remap_loop (remaps example_cfg) ''other.net.'' = ('''', '''', ''other.net.'') \<and>
   routes example_cfg = [(''example.com.'', ''8.8.4.4:53'')] \<and>
   \<not> HasSuffix ''other.net.'' ''example.com.'' \<and>
   upstreams_contacted (fst (route example_cfg (answering None (Some (ErrOther ''timeout'')) [])
     (udp_client ''5.6.7.8'') (query ''other.net.'' TypeA))) = [''8.8.8.8:53'']"
proof -
  let ?req = "query ''other.net.'' TypeA"
  let ?w = "udp_client ''5.6.7.8''"
  have h1: "Question ?req = \<lparr>Name = ''other.net.'', Qtype = TypeA, Qclass = 1\<rparr> # []"
    by (simp add: query_def)
  have h2: "allowed example_cfg ?w ?req"
    by (simp add: model_defs query_def answering_def udp_client_def example_cfg_def TypeA_def)
  have h3: "isTransfer ?req \<longrightarrow> transport_of ?w = ''tcp''"
    by (simp add: model_defs query_def answering_def udp_client_def example_cfg_def TypeA_def)
  have h4: "remap_loop (remaps example_cfg) (Name \<lparr>Name = ''other.net.'', Qtype = TypeA, Qclass = 1\<rparr>)
      = ('''', '''', ''other.net.'')"
    by (simp add: example_cfg_def)
  have h5: "\<forall>(S, U) \<in> set (routes example_cfg). \<not> HasSuffix ''other.net.'' S"
    by (simp add: example_cfg_def HasSuffix_def)
  have d: "defaultServer example_cfg = ''8.8.8.8:53''" by (simp add: example_cfg_def)
  have nt: "\<not> isTransfer ?req"
    by (simp add: model_defs query_def answering_def udp_client_def example_cfg_def TypeA_def)
  have rs: "routes example_cfg = [(''example.com.'', ''8.8.4.4:53'')]"
    by (simp add: example_cfg_def)
  have ns: "\<not> HasSuffix ''other.net.'' ''example.com.''" by (simp add: HasSuffix_def)
  show ?thesis
    using h2 nt rs ns h4
      route_defaults_without_match [OF h1 h2 h3 h4 h5,
        of "answering None (Some (ErrOther ''timeout'')) []", THEN conjunct2]
    by (simp add: d)
qed

text \<open>
  C9 as it is written fails on the transfer guard: a transfer query whose name matches
  no route reaches no upstream, the default included, when its client is not allowed,
  and when it is allowed but comes over UDP.
\<close>

theorem route_defaults_without_match_counterexample:
  "(Question (query ''other.net.'' TypeAXFR) \<noteq> [] \<and>
    remap_loop (remaps example_cfg) ''other.net.'' = ('''', '''', ''other.net.'') \<and>
    route_loop (routes example_cfg) ''other.net.'' = None \<and>
    upstreams_contacted (fst (route example_cfg (answering None None zone_envelopes)
      (tcp_client ''5.6.7.8'') (query ''other.net.'' TypeAXFR))) = []) \<and>
   (allowed example_cfg (udp_client ''1.2.3.4'') (query ''other.net.'' TypeAXFR) \<and>
    upstreams_contacted (fst (route example_cfg (answering None None zone_envelopes)
      (udp_client ''1.2.3.4'') (query ''other.net.'' TypeAXFR))) = [])"
  by (simp add: model_defs query_def answering_def tcp_client_def udp_client_def
      example_cfg_def zone_envelopes_def rr_def)

text \<open>
  C2. The remap loop tests whether \<open>src\<close> is a suffix of the name and then replaces the
  leftmost occurrence of \<open>src\<close>. For \<open>www.old.com.old.com.\<close> that is not the suffix: the
  name sent upstream is \<open>www.new.com.old.com.\<close>, where replacing the suffix gives
  \<open>www.old.com.new.com.\<close>, and the query misses the route of \<open>new.com.\<close>.
\<close>

theorem remap_replaces_leftmost_occurrence:
  "HasSuffix ''www.old.com.old.com.'' ''old.com.'' \<and>
   remap_loop (remaps remap_cfg) ''www.old.com.old.com.'' =
     (''old.com.'', ''new.com.'', ''www.new.com.old.com.'') \<and>
   suffix_replaced ''www.old.com.old.com.'' ''old.com.'' ''new.com.'' = ''www.old.com.new.com.'' \<and>
   fst (route remap_cfg (answering None (Some (ErrOther ''timeout'')) [])
     (udp_client ''5.6.7.8'') (query ''www.old.com.old.com.'' TypeA)) =
     [Exchange ''udp'' (query ''www.new.com.old.com.'' TypeA) ''8.8.8.8:53'',
      LogPrintf (Some (ErrOther ''timeout'')),
      HandleFailed (query ''www.new.com.old.com.'' TypeA)]"
  by (simp add: model_defs query_def answering_def udp_client_def remap_cfg_def TypeA_def
      suffix_replaced_def)

text \<open>
  C5. With a remap applied, an upstream response that has no question makes
  \<open>resp.Question[0]\<close> panic: the run ends in the panic after the exchange, and nothing,
  neither a response nor the failure response, has been sent to the client.
\<close>

theorem proxy_panics_on_empty_question:
  "route remap_cfg (answering (Some (response False [] [])) None [])
     (udp_client ''5.6.7.8'') (query ''a.old.com.'' TypeA) =
     ([Exchange ''udp'' (query ''a.new.com.'' TypeA) ''9.9.9.9:53''], Panic) \<and>
   client_deliveries (fst (route remap_cfg (answering (Some (response False [] [])) None [])
     (udp_client ''5.6.7.8'') (query ''a.old.com.'' TypeA))) = []"
  by (simp add: model_defs query_def response_def answering_def udp_client_def remap_cfg_def
      TypeA_def)

text \<open>
  C10. An allowed zone transfer over TCP is asked of the selected upstream under the
  name the remap loop left, and what the upstream's channel delivers is handed to
  \<open>t.Out\<close> as it is, for the client. The run ends there, with a failure response added
  if \<open>t.In\<close> or \<open>t.Out\<close> reports an error; when \<open>t.Out\<close> never returns, as on a channel
  that is never closed, the handler stays blocked. The remap pair plays no part: the run
  is the run of the already renamed query under a configuration without remaps, so
  nothing is rewritten back.
\<close>

theorem transfer_relayed_as_received:
  assumes "isTransfer req" and "allowed cfg w req" and "transport_of w = ''tcp''"
    and "Question req = q # qs"
    and "remap_loop (remaps cfg) (Name q) = (src, dst, name')"
    and "upstream_in env (with_name req name') (selected_upstream cfg name') = (c, err)"
  shows "route cfg env w req =
           (if err \<noteq> None then
              ([XfrIn (with_name req name') (selected_upstream cfg name'),
                HandleFailed (with_name req name')], Returned)
            else
              (case client_out env w (with_name req name') c of
                 Never_returns \<Rightarrow>
                   ([XfrIn (with_name req name') (selected_upstream cfg name'),
                     XfrOut (with_name req name') c], Blocked)
               | Returns (Some e) \<Rightarrow>
                   ([XfrIn (with_name req name') (selected_upstream cfg name'),
                     XfrOut (with_name req name') c,
                     HandleFailed (with_name req name')], Returned)
               | Returns None \<Rightarrow>
                   ([XfrIn (with_name req name') (selected_upstream cfg name'),
                     XfrOut (with_name req name') c], Returned))) \<and>
         route cfg env w req = route (cfg\<lparr>remaps := []\<rparr>) env w (with_name req name')"
proof -
  let ?req' = "with_name req name'"
  let ?addr = "selected_upstream cfg name'"
  have req': "?req' = req\<lparr>Question := q\<lparr>Name := name'\<rparr> # qs\<rparr>"
    using assms(4) by (rule with_name_Cons)
  have t': "isTransfer ?req'"
    using assms(1,4) by (simp add: req' isTransfer_rename)
  have r: "route cfg env w req = proxy env ?addr w ?req' src dst"
    using route_unfold [OF assms(4) assms(2) assms(5)] by (simp add: req')
  have first: "proxy env ?addr w ?req' src dst =
           (if err \<noteq> None then ([XfrIn ?req' ?addr, HandleFailed ?req'], Returned)
            else
              (case client_out env w ?req' c of
                 Never_returns \<Rightarrow> ([XfrIn ?req' ?addr, XfrOut ?req' c], Blocked)
               | Returns (Some e) \<Rightarrow>
                   ([XfrIn ?req' ?addr, XfrOut ?req' c, HandleFailed ?req'], Returned)
               | Returns None \<Rightarrow> ([XfrIn ?req' ?addr, XfrOut ?req' c], Returned)))"
    using proxy_transfer_tcp [OF t' assms(3) assms(6)] .
  have q': "Question ?req' = q\<lparr>Name := name'\<rparr> # qs" by (simp add: req')
  have a': "allowed (cfg\<lparr>remaps := []\<rparr>) w ?req'"
    using assms(1,2) t' by (simp add: allowed_def)
  have rm': "remap_loop (remaps (cfg\<lparr>remaps := []\<rparr>)) (Name (q\<lparr>Name := name'\<rparr>)) = ([], [], name')"
    by simp
  have "route (cfg\<lparr>remaps := []\<rparr>) env w ?req' =
      proxy env (selected_upstream (cfg\<lparr>remaps := []\<rparr>) name') w
        (?req'\<lparr>Question := q\<lparr>Name := name'\<rparr>\<lparr>Name := name'\<rparr> # qs\<rparr>) [] []"
    using route_unfold [OF q' a' rm'] .
  also have "\<dots> = proxy env ?addr w ?req' [] []"
    by (simp add: selected_upstream_def req' split: option.splits)
  also have "\<dots> = proxy env ?addr w ?req' src dst"
    by (rule proxy_transfer_ignores_remap [OF t', symmetric])
  finally have second: "route cfg env w req = route (cfg\<lparr>remaps := []\<rparr>) env w ?req'"
    using r by simp
  show ?thesis using r first second by simp
qed

theorem transfer_relayed_as_received_witness:
  "(isTransfer (query ''old.com.'' TypeAXFR) \<and>
    allowed remap_cfg (tcp_client ''1.2.3.4'') (query ''old.com.'' TypeAXFR) \<and>
    transport_of (tcp_client ''1.2.3.4'') = ''tcp'' \<and>
    remap_loop (remaps remap_cfg) ''old.com.'' = (''old.com.'', ''new.com.'', ''new.com.'') \<and>
    route remap_cfg (answering None None zone_envelopes) (tcp_client ''1.2.3.4'')
      (query ''old.com.'' TypeAXFR) =
      ([XfrIn (query ''new.com.'' TypeAXFR) ''9.9.9.9:53'',
        XfrOut (query ''new.com.'' TypeAXFR) zone_envelopes], Returned)) \<and>
   (isTransfer (query2 ''old.com.'' TypeA ''old.com.'' TypeAXFR) \<and>
    allowed remap_cfg (tcp_client ''1.2.3.4'') (query2 ''old.com.'' TypeA ''old.com.'' TypeAXFR) \<and>
    route remap_cfg stalled (tcp_client ''1.2.3.4'')
      (query2 ''old.com.'' TypeA ''old.com.'' TypeAXFR) =
      ([XfrIn (query2 ''new.com.'' TypeA ''old.com.'' TypeAXFR) ''9.9.9.9:53'',
        XfrOut (query2 ''new.com.'' TypeA ''old.com.'' TypeAXFR) []], Blocked))"
proof -
  let ?w = "tcp_client ''1.2.3.4''"
  have h3: "transport_of ?w = ''tcp''" by (simp add: transport_of_def tcp_client_def)
  have s: "selected_upstream remap_cfg ''new.com.'' = ''9.9.9.9:53''"
    by (simp add: selected_upstream_def remap_cfg_def HasSuffix_def)
  have first:
    "isTransfer (query ''old.com.'' TypeAXFR) \<and>
     allowed remap_cfg ?w (query ''old.com.'' TypeAXFR) \<and>
     transport_of ?w = ''tcp'' \<and>
     remap_loop (remaps remap_cfg) ''old.com.'' = (''old.com.'', ''new.com.'', ''new.com.'') \<and>
     route remap_cfg (answering None None zone_envelopes) ?w (query ''old.com.'' TypeAXFR) =
       ([XfrIn (query ''new.com.'' TypeAXFR) ''9.9.9.9:53'',
         XfrOut (query ''new.com.'' TypeAXFR) zone_envelopes], Returned)"
  proof -
    let ?req = "query ''old.com.'' TypeAXFR"
    let ?env = "answering None None zone_envelopes"
    have h1: "isTransfer ?req"
      by (simp add: isTransfer_def query_def TypeAXFR_def TypeIXFR_def)
    have h2: "allowed remap_cfg ?w ?req"
      by (simp add: allowed_def isTransfer_def query_def TypeAXFR_def TypeIXFR_def
          tcp_client_def remap_cfg_def)
    have h4: "Question ?req = \<lparr>Name = ''old.com.'', Qtype = TypeAXFR, Qclass = 1\<rparr> # []"
      by (simp add: query_def)
    have h5: "remap_loop (remaps remap_cfg)
        (Name \<lparr>Name = ''old.com.'', Qtype = TypeAXFR, Qclass = 1\<rparr>)
        = (''old.com.'', ''new.com.'', ''new.com.'')"
      by (simp add: remap_cfg_def HasSuffix_def Replace1_def HasPrefix_def)
    have h6: "upstream_in ?env (with_name ?req ''new.com.'')
        (selected_upstream remap_cfg ''new.com.'') = (zone_envelopes, None)"
      by (simp add: answering_def)
    have n: "with_name ?req ''new.com.'' = query ''new.com.'' TypeAXFR"
      by (simp add: with_name_def query_def)
    have o: "client_out ?env ?w (query ''new.com.'' TypeAXFR) zone_envelopes = Returns None"
      by (simp add: answering_def)
    show ?thesis
      using h1 h2 h3 h5
        transfer_relayed_as_received [OF h1 h2 h3 h4 h5 h6, THEN conjunct1]
      by (simp add: n s o)
  qed
  have second:
    "isTransfer (query2 ''old.com.'' TypeA ''old.com.'' TypeAXFR) \<and>
     allowed remap_cfg ?w (query2 ''old.com.'' TypeA ''old.com.'' TypeAXFR) \<and>
     route remap_cfg stalled ?w (query2 ''old.com.'' TypeA ''old.com.'' TypeAXFR) =
       ([XfrIn (query2 ''new.com.'' TypeA ''old.com.'' TypeAXFR) ''9.9.9.9:53'',
         XfrOut (query2 ''new.com.'' TypeA ''old.com.'' TypeAXFR) []], Blocked)"
  proof -
    let ?req = "query2 ''old.com.'' TypeA ''old.com.'' TypeAXFR"
    have h1: "isTransfer ?req"
      by (simp add: isTransfer_def query2_def TypeAXFR_def TypeIXFR_def TypeA_def)
    have h2: "allowed remap_cfg ?w ?req"
      by (simp add: allowed_def isTransfer_def query2_def TypeAXFR_def TypeIXFR_def TypeA_def
          tcp_client_def remap_cfg_def)
    have h4: "Question ?req = \<lparr>Name = ''old.com.'', Qtype = TypeA, Qclass = 1\<rparr> #
        [\<lparr>Name = ''old.com.'', Qtype = TypeAXFR, Qclass = 1\<rparr>]"
      by (simp add: query2_def)
    have h5: "remap_loop (remaps remap_cfg)
        (Name \<lparr>Name = ''old.com.'', Qtype = TypeA, Qclass = 1\<rparr>)
        = (''old.com.'', ''new.com.'', ''new.com.'')"
      by (simp add: remap_cfg_def HasSuffix_def Replace1_def HasPrefix_def)
    have h6: "upstream_in stalled (with_name ?req ''new.com.'')
        (selected_upstream remap_cfg ''new.com.'') = ([], None)"
      by (simp add: stalled_def)
    have n: "with_name ?req ''new.com.'' = query2 ''new.com.'' TypeA ''old.com.'' TypeAXFR"
      by (simp add: with_name_def query2_def)
    have o: "client_out stalled ?w (query2 ''new.com.'' TypeA ''old.com.'' TypeAXFR) []
        = Never_returns"
      by (simp add: stalled_def)
    show ?thesis
      using h1 h2
        transfer_relayed_as_received [OF h1 h2 h3 h4 h5 h6, THEN conjunct1]
      by (simp add: n s o)
  qed
  from first second show ?thesis by (rule conjI)
qed



text \<open>
  C4, as the code has it. When the exchange of an ordinary query gives, together with the
  truncation error, a response (one with a first question, if a remap was applied), the
  response is written to the client and no failure response is sent. With no remap applied
  it is the upstream's response itself. With a remap applied it is that response with its
  flags and content, the truncation flag among them, and with the remap undone in the
  first question name and the answer owner names: a name that ends with \<open>dst\<close> and has it
  nowhere else has that suffix replaced by \<open>src\<close>, the name sent comes back as the name
  asked when \<open>dst\<close> occurs in it once, and a name without \<open>dst\<close> stays as it is.
\<close>

theorem truncated_response_relayed:
  assumes "\<not> isTransfer req" and "Question req = q # qs"
    and "remap_loop (remaps cfg) (Name q) = (src, dst, name')"
    and "upstream_exchange env (transport_of w) (with_name req name')
           (selected_upstream cfg name') = (Some resp, Some ErrTruncated)"
    and "src = [] \<or> Question resp \<noteq> []"
  shows "\<exists>resp'. route cfg env w req =
            ([Exchange (transport_of w) (with_name req name') (selected_upstream cfg name'),
              WriteMsg (Some resp')], Returned) \<and>
          same_but_names resp resp' \<and> Truncated resp' = Truncated resp \<and>
          (src = [] \<longrightarrow> resp' = resp) \<and>
          (src \<noteq> [] \<longrightarrow>
             name_undone (Name q) name' src dst
               (Name (hd (Question resp))) (Name (hd (Question resp'))) \<and>
             list_all2 (\<lambda>a a'. name_undone (Name q) name' src dst (Hdr_Name a) (Hdr_Name a'))
               (Answer resp) (Answer resp'))"
proof -
  let ?req' = "with_name req name'"
  let ?addr = "selected_upstream cfg name'"
  have req': "?req' = req\<lparr>Question := q\<lparr>Name := name'\<rparr> # qs\<rparr>"
    using assms(2) by (rule with_name_Cons)
  have nt: "\<not> isTransfer ?req'"
    using assms(1,2) by (simp add: req' isTransfer_rename)
  have r: "route cfg env w req = proxy env ?addr w ?req' src dst"
    using route_unfold [OF assms(2) allowed_ordinary [OF assms(1)] assms(3)] by (simp add: req')
  have p: "proxy env ?addr w ?req' src dst =
     (if src \<noteq> [] then
        (case rewrite_names src dst (Some resp) of
           None \<Rightarrow> ([Exchange (transport_of w) ?req' ?addr], Panic)
         | Some resp' \<Rightarrow> ([Exchange (transport_of w) ?req' ?addr, WriteMsg (Some resp')], Returned))
      else ([Exchange (transport_of w) ?req' ?addr, WriteMsg (Some resp)], Returned))"
    using proxy_ordinary [OF nt assms(4)] by simp
  show ?thesis
  proof (cases "src = []")
    case True
    with r p have "route cfg env w req =
        ([Exchange (transport_of w) ?req' ?addr, WriteMsg (Some resp)], Returned)"
      by simp
    with True show ?thesis by (auto simp: same_but_names_refl)
  next
    case False
    have m: "HasSuffix (Name q) src" "name' = Replace1 (Name q) src dst"
      using remap_loop_cases [OF assms(3)] False by blast+
    from False assms(5) obtain rq rqs where rq: "Question resp = rq # rqs"
      by (cases "Question resp") auto
    obtain resp' where resp': "rewrite_names src dst (Some resp) = Some resp'"
        "same_but_names resp resp'"
        "name_undone (Name q) name' src dst (Name rq) (Name (hd (Question resp')))"
        "list_all2 (\<lambda>a a'. name_undone (Name q) name' src dst (Hdr_Name a) (Hdr_Name a'))
           (Answer resp) (Answer resp')"
      using rewrite_names_undone [OF rq m(1) m(2)] by blast
    from resp'(2) have "resp' = resp\<lparr>Question := Question resp', Answer := Answer resp'\<rparr>"
      by (simp add: same_but_names_def)
    then have "Truncated resp' = Truncated (resp\<lparr>Question := Question resp', Answer := Answer resp'\<rparr>)"
      by simp
    then have tc: "Truncated resp' = Truncated resp" by simp
    from r p False resp'(1) have "route cfg env w req =
        ([Exchange (transport_of w) ?req' ?addr, WriteMsg (Some resp')], Returned)"
      by simp
    with False resp' tc rq show ?thesis by auto
  qed
qed

theorem truncated_response_relayed_witness:
  "(\<not> isTransfer (query ''big.example.com.'' TypeA) \<and>
    remap_loop (remaps example_cfg) ''big.example.com.'' = ('''', '''', ''big.example.com.'') \<and>
    route example_cfg
      (answering (Some (response True [''big.example.com.''] [])) (Some ErrTruncated) [])
      (udp_client ''5.6.7.8'') (query ''big.example.com.'' TypeA) =
      ([Exchange ''udp'' (query ''big.example.com.'' TypeA) ''8.8.4.4:53'',
        WriteMsg (Some (response True [''big.example.com.''] []))], Returned)) \<and>
   (\<not> isTransfer (query ''a.old.com.'' TypeA) \<and>
    remap_loop (remaps remap_cfg) ''a.old.com.'' = (''old.com.'', ''new.com.'', ''a.new.com.'') \<and>
    HasSuffix ''a.new.com.'' ''new.com.'' \<and> occurs_once ''a.new.com.'' ''new.com.'' \<and>
    (\<exists>resp'. route remap_cfg
         (answering (Some (response True [''a.new.com.''] [rr ''a.new.com.'' TypeA ''192.0.2.1'']))
            (Some ErrTruncated) [])
         (udp_client ''5.6.7.8'') (query ''a.old.com.'' TypeA) =
         ([Exchange ''udp'' (query ''a.new.com.'' TypeA) ''9.9.9.9:53'',
           WriteMsg (Some resp')], Returned) \<and>
       same_but_names (response True [''a.new.com.''] [rr ''a.new.com.'' TypeA ''192.0.2.1''])
         resp' \<and>
       Truncated resp' \<and>
       Name (hd (Question resp')) = ''a.old.com.'' \<and>
       map Hdr_Name (Answer resp') = [''a.old.com.'']))"
proof -
  let ?w = "udp_client ''5.6.7.8''"
  have t: "transport_of ?w = ''udp''" by (simp add: transport_of_def udp_client_def)
  have first:
    "\<not> isTransfer (query ''big.example.com.'' TypeA) \<and>
     remap_loop (remaps example_cfg) ''big.example.com.'' = ('''', '''', ''big.example.com.'') \<and>
     route example_cfg
       (answering (Some (response True [''big.example.com.''] [])) (Some ErrTruncated) [])
       (udp_client ''5.6.7.8'') (query ''big.example.com.'' TypeA) =
       ([Exchange ''udp'' (query ''big.example.com.'' TypeA) ''8.8.4.4:53'',
         WriteMsg (Some (response True [''big.example.com.''] []))], Returned)"
  proof -
    let ?req = "query ''big.example.com.'' TypeA"
    let ?resp = "response True [''big.example.com.''] []"
    let ?env = "answering (Some ?resp) (Some ErrTruncated) []"
    have h1: "\<not> isTransfer ?req"
      by (simp add: isTransfer_def query_def TypeAXFR_def TypeIXFR_def TypeA_def)
    have h2: "Question ?req = \<lparr>Name = ''big.example.com.'', Qtype = TypeA, Qclass = 1\<rparr> # []"
      by (simp add: query_def)
    have h3: "remap_loop (remaps example_cfg)
        (Name \<lparr>Name = ''big.example.com.'', Qtype = TypeA, Qclass = 1\<rparr>)
        = ('''', '''', ''big.example.com.'')"
      by (simp add: example_cfg_def)
    have h4: "upstream_exchange ?env (transport_of ?w) (with_name ?req ''big.example.com.'')
        (selected_upstream example_cfg ''big.example.com.'') = (Some ?resp, Some ErrTruncated)"
      by (simp add: answering_def)
    have h5: "'''' = [] \<or> Question ?resp \<noteq> []" by simp
    have n: "with_name ?req ''big.example.com.'' = query ''big.example.com.'' TypeA"
      by (simp add: with_name_def query_def)
    have s: "selected_upstream example_cfg ''big.example.com.'' = ''8.8.4.4:53''"
      by (simp add: selected_upstream_def example_cfg_def HasSuffix_def)
    show ?thesis
      using h1 h3 truncated_response_relayed [OF h1 h2 h3 h4 h5]
      by (auto simp: n s t)
  qed
  have second:
    "\<not> isTransfer (query ''a.old.com.'' TypeA) \<and>
     remap_loop (remaps remap_cfg) ''a.old.com.'' = (''old.com.'', ''new.com.'', ''a.new.com.'') \<and>
     HasSuffix ''a.new.com.'' ''new.com.'' \<and> occurs_once ''a.new.com.'' ''new.com.'' \<and>
     (\<exists>resp'. route remap_cfg
         (answering (Some (response True [''a.new.com.''] [rr ''a.new.com.'' TypeA ''192.0.2.1'']))
            (Some ErrTruncated) [])
         (udp_client ''5.6.7.8'') (query ''a.old.com.'' TypeA) =
         ([Exchange ''udp'' (query ''a.new.com.'' TypeA) ''9.9.9.9:53'',
           WriteMsg (Some resp')], Returned) \<and>
       same_but_names (response True [''a.new.com.''] [rr ''a.new.com.'' TypeA ''192.0.2.1''])
         resp' \<and>
       Truncated resp' \<and>
       Name (hd (Question resp')) = ''a.old.com.'' \<and>
       map Hdr_Name (Answer resp') = [''a.old.com.''])"
  proof -
    let ?req = "query ''a.old.com.'' TypeA"
    let ?resp = "response True [''a.new.com.''] [rr ''a.new.com.'' TypeA ''192.0.2.1'']"
    let ?env = "answering (Some ?resp) (Some ErrTruncated) []"
    have h1: "\<not> isTransfer ?req"
      by (simp add: isTransfer_def query_def TypeAXFR_def TypeIXFR_def TypeA_def)
    have h2: "Question ?req = \<lparr>Name = ''a.old.com.'', Qtype = TypeA, Qclass = 1\<rparr> # []"
      by (simp add: query_def)
    have h3: "remap_loop (remaps remap_cfg)
        (Name \<lparr>Name = ''a.old.com.'', Qtype = TypeA, Qclass = 1\<rparr>)
        = (''old.com.'', ''new.com.'', ''a.new.com.'')"
      by (simp add: remap_cfg_def HasSuffix_def Replace1_def HasPrefix_def)
    have h4: "upstream_exchange ?env (transport_of ?w) (with_name ?req ''a.new.com.'')
        (selected_upstream remap_cfg ''a.new.com.'') = (Some ?resp, Some ErrTruncated)"
      by (simp add: answering_def)
    have h5: "''old.com.'' = [] \<or> Question ?resp \<noteq> []" by (simp add: response_def)
    have n: "with_name ?req ''a.new.com.'' = query ''a.new.com.'' TypeA"
      by (simp add: with_name_def query_def)
    have s: "selected_upstream remap_cfg ''a.new.com.'' = ''9.9.9.9:53''"
      by (simp add: selected_upstream_def remap_cfg_def HasSuffix_def)
    have sfx: "HasSuffix ''a.new.com.'' ''new.com.''" by (simp add: HasSuffix_def)
    have o1: "occurs_once ''a.new.com.'' ''new.com.''" by code_simp
    have sr: "suffix_replaced ''a.new.com.'' ''new.com.'' ''old.com.'' = ''a.old.com.''"
      by (simp add: suffix_replaced_def)
    have qn: "Name (hd (Question ?resp)) = ''a.new.com.''" by (simp add: response_def)
    have a: "Answer ?resp = [rr ''a.new.com.'' TypeA ''192.0.2.1'']"
      by (simp add: response_def)
    have hn: "Hdr_Name (rr ''a.new.com.'' TypeA ''192.0.2.1'') = ''a.new.com.''"
      by (simp add: rr_def)
    have tr: "Truncated ?resp" by (simp add: response_def)
    from truncated_response_relayed [OF h1 h2 h3 h4 h5]
    obtain resp' where r: "route remap_cfg ?env ?w ?req =
          ([Exchange (transport_of ?w) (with_name ?req ''a.new.com.'')
              (selected_upstream remap_cfg ''a.new.com.''), WriteMsg (Some resp')], Returned)"
        and sb: "same_but_names ?resp resp'"
        and tc: "Truncated resp' = Truncated ?resp"
        and un: "name_undone ''a.old.com.'' ''a.new.com.'' ''old.com.'' ''new.com.''
            (Name (hd (Question ?resp))) (Name (hd (Question resp')))"
        and an: "list_all2 (\<lambda>a a'. name_undone ''a.old.com.'' ''a.new.com.'' ''old.com.'' ''new.com.''
            (Hdr_Name a) (Hdr_Name a')) (Answer ?resp) (Answer resp')"
      by auto
    from un sfx o1 sr have q': "Name (hd (Question resp')) = ''a.old.com.''"
      by (simp add: name_undone_def qn)
    from an obtain b1 where b: "Answer resp' = [b1]"
        and b1: "name_undone ''a.old.com.'' ''a.new.com.'' ''old.com.'' ''new.com.'' ''a.new.com.''
            (Hdr_Name b1)"
      by (auto simp: a hn list_all2_Cons1)
    from b1 sfx o1 sr have n1: "Hdr_Name b1 = ''a.old.com.''" by (simp add: name_undone_def)
    have "route remap_cfg ?env ?w ?req =
          ([Exchange ''udp'' (query ''a.new.com.'' TypeA) ''9.9.9.9:53'', WriteMsg (Some resp')],
           Returned)"
      using r by (simp add: n s t)
    with sb tc tr q' b n1 have "\<exists>resp'. route remap_cfg ?env ?w ?req =
          ([Exchange ''udp'' (query ''a.new.com.'' TypeA) ''9.9.9.9:53'', WriteMsg (Some resp')],
           Returned) \<and> same_but_names ?resp resp' \<and> Truncated resp' \<and>
        Name (hd (Question resp')) = ''a.old.com.'' \<and>
        map Hdr_Name (Answer resp') = [''a.old.com.'']"
      by auto
    with h1 h3 sfx o1 show ?thesis by simp
  qed
  from first second show ?thesis by (rule conjI)
qed


text \<open>
  C4 as it is written fails when a remap was applied: the truncated response reaches the
  client with its question and answer names rewritten, not as the upstream sent it.
\<close>

theorem truncated_response_relayed_counterexample:
  "\<not> isTransfer (query ''a.old.com.'' TypeA) \<and>
   upstream_exchange
     (answering (Some (response True [''a.new.com.''] [rr ''a.new.com.'' TypeA ''192.0.2.1'']))
        (Some ErrTruncated) [])
     ''udp'' (query ''a.new.com.'' TypeA) ''9.9.9.9:53'' =
     (Some (response True [''a.new.com.''] [rr ''a.new.com.'' TypeA ''192.0.2.1'']),
      Some ErrTruncated) \<and>
   route remap_cfg
     (answering (Some (response True [''a.new.com.''] [rr ''a.new.com.'' TypeA ''192.0.2.1'']))
        (Some ErrTruncated) [])
     (udp_client ''5.6.7.8'') (query ''a.old.com.'' TypeA) =
     ([Exchange ''udp'' (query ''a.new.com.'' TypeA) ''9.9.9.9:53'',
       WriteMsg (Some (response True [''a.old.com.''] [rr ''a.old.com.'' TypeA ''192.0.2.1'']))],
      Returned) \<and>
   response True [''a.old.com.''] [rr ''a.old.com.'' TypeA ''192.0.2.1''] \<noteq>
   response True [''a.new.com.''] [rr ''a.new.com.'' TypeA ''192.0.2.1'']"
  by (simp add: model_defs query_def response_def rr_def answering_def udp_client_def
      remap_cfg_def TypeA_def)

end
